theory Spec2Isabelle
  imports Complex_Main "HOL-Library.Word"
begin

section \<open>Data model\<close>

text \<open>
  The program is \<^verbatim>\<open>app.py\<close>: a worker thread that drives the speech engine and
  posts tuples on a queue, and a Tk window that polls the queue.

  A Python \<^verbatim>\<open>str\<close> is the list of its code points, and \<open>ascii\<close> turns a literal of
  ASCII letters into one; the letters of the source's literals that are outside ASCII
  are written as their code points (the no-break space \<open>0xA0\<close> before the colon of the
  two error messages, the narrow no-break space \<open>0x202F\<close> in the label of the largest
  model). A line break is the code point 10. Python floats are idealised as \<open>real\<close>.
\<close>

type_synonym str = "nat list"

type_synonym byte = "8 word"

definition ascii :: "string \<Rightarrow> str" where
  "ascii s = map of_char s"

text \<open>
  The exceptions of the model. \<open>EngineError\<close> is an exception that the engine's segment
  generator raises while the worker iterates over it, \<open>OSError\<close> one of the file system;
  both carry \<^verbatim>\<open>str(e)\<close>. \<open>UnicodeEncodeError\<close> carries the position of the code point
  that has no encoding.
\<close>

datatype py_error =
    ZeroDivisionError
  | KeyError str
  | AttributeError str
  | EngineError str
  | OSError str
  | FileNotFoundError
  | UnicodeEncodeError nat
  | UnicodeDecodeError

text \<open>
  The tuples posted on the queue: \<^verbatim>\<open>('progress', pct)\<close>, \<^verbatim>\<open>('text', segment_text)\<close>,
  \<^verbatim>\<open>('done', full_text)\<close>, \<^verbatim>\<open>('error', msg)\<close>.
\<close>

datatype event = Progress real | TextChunk str | Done str | Error str

text \<open>A segment of the engine: the attributes \<^verbatim>\<open>start\<close>, \<^verbatim>\<open>end\<close>, \<^verbatim>\<open>text\<close>.\<close>

record segment =
  seg_start :: real
  seg_end :: real
  seg_text :: str

text \<open>
  The lazy sequence of segments that \<^verbatim>\<open>transcribe\<close> returns: the segments it yields, in
  order, and then how it ends, exhausted (\<open>None\<close>) or with an exception raised inside
  the \<^verbatim>\<open>for\<close> loop of the worker (its message). The sequence is finite.
\<close>

datatype generator = Generator (yields: "segment list") (raises: "str option")

text \<open>
  The engine is the library \<^verbatim>\<open>faster_whisper\<close>, not code of this program: it is a
  parameter. \<open>WhisperModel\<close> is the constructor called with the model size (an
  exception is the left summand, carrying \<^verbatim>\<open>str(e)\<close>); \<open>transcribe\<close> is the method
  called with the audio path and the language code (the other arguments are the
  constants \<^verbatim>\<open>device="cpu"\<close>, \<^verbatim>\<open>compute_type="int8"\<close>, \<^verbatim>\<open>beam_size=5\<close>, \<^verbatim>\<open>vad_filter=True\<close>),
  which raises or returns the generator of the segments and \<^verbatim>\<open>info.duration\<close> (\<open>None\<close>
  when the attribute is \<^verbatim>\<open>None\<close>).
\<close>

record 'm engine =
  WhisperModel :: "str \<Rightarrow> str + 'm"
  transcribe :: "'m \<Rightarrow> str \<Rightarrow> str \<Rightarrow> str + (generator \<times> real option)"

section \<open>The worker\<close>

text \<open>Python's \<^verbatim>\<open>/\<close> on floats raises on a zero divisor.\<close>

definition truediv :: "real \<Rightarrow> real \<Rightarrow> py_error + real" where
  "truediv a b = (if b = 0 then Inl ZeroDivisionError else Inr (a / b))"

text \<open>\<^verbatim>\<open>duration = info.duration or 1\<close>: \<^verbatim>\<open>None\<close> and \<^verbatim>\<open>0.0\<close> are falsy.\<close>

definition duration_or_1 :: "real option \<Rightarrow> real" where
  "duration_or_1 d = (case d of None \<Rightarrow> 1 | Some x \<Rightarrow> if x = 0 then 1 else x)"

text \<open>
  The \<^verbatim>\<open>for seg in segments\<close> loop, with the locals \<^verbatim>\<open>done\<close> and \<^verbatim>\<open>full_text\<close> and the
  queue threaded through; \<open>raised\<close> is how the generator ends. The loop is not inside a
  \<^verbatim>\<open>try\<close>: an exception leaves it, and the worker, with what was posted so far.
\<close>

fun segments_loop ::
  "real \<Rightarrow> segment list \<Rightarrow> str option \<Rightarrow> real \<Rightarrow> str \<Rightarrow> event list \<Rightarrow>
   py_error option \<times> str \<times> event list"
where
  "segments_loop duration [] raised done full_text qu =
     (case raised of
        None \<Rightarrow> (None, full_text, qu)
      | Some e \<Rightarrow> (Some (EngineError e), full_text, qu))"
| "segments_loop duration (seg # segs) raised done full_text qu =
     (let done' = done + (seg_end seg - seg_start seg) in
      case truediv done' duration of
        Inl err \<Rightarrow> (Some err, full_text, qu)
      | Inr pct \<Rightarrow>
          segments_loop duration segs raised done'
            (full_text @ seg_text seg @ [10])
            (qu @ [Progress (min pct 1), TextChunk (seg_text seg)]))"

text \<open>
  \<open>worker_transcribe\<close> returns the exception that ended the thread, if any, and the
  queue after the call.
\<close>

definition worker_transcribe ::
  "'m engine \<Rightarrow> str \<Rightarrow> str \<Rightarrow> str \<Rightarrow> event list \<Rightarrow> py_error option \<times> event list"
where
  "worker_transcribe eng audio_path model_size lang_code qu =
     (case WhisperModel eng model_size of
        Inl e \<Rightarrow>
          (None,
           qu @ [Error (ascii ''Erreur chargement mod'' @ [0xE8] @ ascii ''le'' @ [0xA0]
                          @ ascii '': '' @ e)])
      | Inr m \<Rightarrow>
          (case transcribe eng m audio_path lang_code of
             Inl e \<Rightarrow>
               (None, qu @ [Error (ascii ''Erreur transcription'' @ [0xA0] @ ascii '': '' @ e)])
           | Inr (segments, info_duration) \<Rightarrow>
               (let duration = duration_or_1 info_duration in
                case segments_loop duration (yields segments) (raises segments) 0 [] qu of
                  (Some err, full_text, qu') \<Rightarrow> (Some err, qu')
                | (None, full_text, qu') \<Rightarrow> (None, qu' @ [Done full_text]))))"

text \<open>The events one call of the worker posts, on a queue that was empty.\<close>

definition worker_events :: "'m engine \<Rightarrow> str \<Rightarrow> str \<Rightarrow> str \<Rightarrow> event list" where
  "worker_events eng audio_path model_size lang_code =
     snd (worker_transcribe eng audio_path model_size lang_code [])"

subsection \<open>Reading a sequence of events\<close>

fun progress_payloads :: "event list \<Rightarrow> real list" where
  "progress_payloads [] = []"
| "progress_payloads (Progress p # es) = p # progress_payloads es"
| "progress_payloads (e # es) = progress_payloads es"

fun text_payloads :: "event list \<Rightarrow> str list" where
  "text_payloads [] = []"
| "text_payloads (TextChunk t # es) = t # text_payloads es"
| "text_payloads (e # es) = text_payloads es"

fun last_done :: "event list \<Rightarrow> str option" where
  "last_done [] = None"
| "last_done (Done t # es) = (case last_done es of None \<Rightarrow> Some t | Some u \<Rightarrow> Some u)"
| "last_done (e # es) = last_done es"

text \<open>
  The shape of a run: Progress/TextChunk pairs, then one terminal event and nothing after
  it.
\<close>

fun run_shape :: "event list \<Rightarrow> bool" where
  "run_shape [Done t] = True"
| "run_shape [Error m] = True"
| "run_shape (Progress p # TextChunk t # es) = run_shape es"
| "run_shape es = False"

text \<open>What the loop posts for a list of segments, written without the loop.\<close>

fun loop_events :: "real \<Rightarrow> real \<Rightarrow> segment list \<Rightarrow> event list" where
  "loop_events duration done [] = []"
| "loop_events duration done (seg # segs) =
     Progress (min ((done + (seg_end seg - seg_start seg)) / duration) 1)
       # TextChunk (seg_text seg)
       # loop_events duration (done + (seg_end seg - seg_start seg)) segs"

definition loop_text :: "segment list \<Rightarrow> str" where
  "loop_text segs = concat (map (\<lambda>seg. seg_text seg @ [10]) segs)"

section \<open>Text files\<close>

text \<open>
  The codec \<^verbatim>\<open>utf-8\<close> of the runtime. A code point encodes to one to four bytes; the
  surrogates \<open>0xD800\<close> to \<open>0xDFFF\<close> have no encoding.
\<close>

definition encode_char :: "nat \<Rightarrow> nat list option" where
  "encode_char c =
     (if c < 0x80 then Some [c]
      else if c < 0x800 then Some [0xC0 + c div 0x40, 0x80 + c mod 0x40]
      else if c < 0x10000 then
        (if 0xD800 \<le> c \<and> c \<le> 0xDFFF then None
         else Some [0xE0 + c div 0x1000, 0x80 + c div 0x40 mod 0x40, 0x80 + c mod 0x40])
      else if c < 0x110000 then
        Some [0xF0 + c div 0x40000, 0x80 + c div 0x1000 mod 0x40,
              0x80 + c div 0x40 mod 0x40, 0x80 + c mod 0x40]
      else None)"

fun encode_from :: "nat \<Rightarrow> str \<Rightarrow> py_error + nat list" where
  "encode_from i [] = Inr []"
| "encode_from i (c # cs) =
     (case encode_char c of
        None \<Rightarrow> Inl (UnicodeEncodeError i)
      | Some bs \<Rightarrow>
          (case encode_from (Suc i) cs of
             Inl err \<Rightarrow> Inl err
           | Inr rest \<Rightarrow> Inr (bs @ rest)))"

definition utf8_encode :: "str \<Rightarrow> py_error + byte list" where
  "utf8_encode s =
     (case encode_from 0 s of Inl err \<Rightarrow> Inl err | Inr ns \<Rightarrow> Inr (map of_nat ns))"

definition cont :: "nat \<Rightarrow> bool" where
  "cont b = (0x80 \<le> b \<and> b \<le> 0xBF)"

text \<open>
  The strict decoder, one byte at a time: \<open>need\<close> continuation bytes are still expected
  for the code point whose high bits are \<open>acc\<close>, and \<open>lo\<close> is the least code point the
  sequence may stand for (shorter encodings of it are refused, and so are surrogates).
\<close>

fun decode_bytes :: "nat \<Rightarrow> nat \<Rightarrow> nat \<Rightarrow> nat list \<Rightarrow> str option" where
  "decode_bytes need acc lo [] = (if need = 0 then Some [] else None)"
| "decode_bytes need acc lo (b # bs) =
     (if need = 0 then
        (if b < 0x80 then map_option ((#) b) (decode_bytes 0 0 0 bs)
         else if 0xC2 \<le> b \<and> b \<le> 0xDF then decode_bytes 1 (b - 0xC0) 0x80 bs
         else if 0xE0 \<le> b \<and> b \<le> 0xEF then decode_bytes 2 (b - 0xE0) 0x800 bs
         else if 0xF0 \<le> b \<and> b \<le> 0xF4 then decode_bytes 3 (b - 0xF0) 0x10000 bs
         else None)
      else if cont b then
        (let acc' = acc * 0x40 + (b - 0x80) in
         if need = 1 then
           (if lo \<le> acc' \<and> acc' < 0x110000 \<and> \<not> (0xD800 \<le> acc' \<and> acc' \<le> 0xDFFF)
            then map_option ((#) acc') (decode_bytes 0 0 0 bs)
            else None)
         else decode_bytes (need - 1) acc' lo bs)
      else None)"

definition utf8_decode :: "byte list \<Rightarrow> py_error + str" where
  "utf8_decode bs =
     (case decode_bytes 0 0 0 (map unat bs) of
        None \<Rightarrow> Inl UnicodeDecodeError
      | Some s \<Rightarrow> Inr s)"

text \<open>
  A file opened in text mode with the default \<^verbatim>\<open>newline=None\<close> writes the line
  separator of the platform for every line break, and reads \<^verbatim>\<open>\r\n\<close> and \<^verbatim>\<open>\r\<close> as a line
  break.
\<close>

definition translate_newlines :: "str \<Rightarrow> str \<Rightarrow> str" where
  "translate_newlines sep s = concat (map (\<lambda>c. if c = 10 then sep else [c]) s)"

fun universal_newlines :: "str \<Rightarrow> str" where
  "universal_newlines [] = []"
| "universal_newlines (c # cs) =
     (if c = 13 then
        (case cs of
           [] \<Rightarrow> [10]
         | d # ds \<Rightarrow> if d = 10 then 10 # universal_newlines ds else 10 # universal_newlines cs)
      else c # universal_newlines cs)"

text \<open>
  The files of the machine: the bytes of each regular file; the paths at which
  \<^verbatim>\<open>open(path, "w")\<close> raises, with the message; the paths at which the write (or the close
  that flushes it) raises, with the number of bytes that reached the file and the message;
  and \<^verbatim>\<open>os.linesep\<close>.
\<close>

record filesystem =
  files :: "str \<Rightarrow> byte list option"
  open_error :: "str \<Rightarrow> str option"
  write_error :: "str \<Rightarrow> (nat \<times> str) option"
  linesep :: str

definition isfile :: "filesystem \<Rightarrow> str \<Rightarrow> bool" where
  "isfile fs path = (files fs path \<noteq> None)"

text \<open>\<^verbatim>\<open>open(path, "w", encoding="utf-8")\<close>: the file is created or emptied.\<close>

definition open_w :: "str \<Rightarrow> filesystem \<Rightarrow> py_error + filesystem" where
  "open_w path fs =
     (case open_error fs path of
        Some e \<Rightarrow> Inl (OSError e)
      | None \<Rightarrow> Inr (fs\<lparr>files := (files fs)(path \<mapsto> [])\<rparr>))"

text \<open>\<^verbatim>\<open>f.write(text)\<close> on the file just opened, and the close at the end of the \<^verbatim>\<open>with\<close>.\<close>

definition write_text :: "str \<Rightarrow> str \<Rightarrow> filesystem \<Rightarrow> py_error option \<times> filesystem" where
  "write_text path text fs =
     (case utf8_encode (translate_newlines (linesep fs) text) of
        Inl err \<Rightarrow> (Some err, fs)
      | Inr data \<Rightarrow>
          (case write_error fs path of
             Some (n, e) \<Rightarrow> (Some (OSError e), fs\<lparr>files := (files fs)(path \<mapsto> take n data)\<rparr>)
           | None \<Rightarrow> (None, fs\<lparr>files := (files fs)(path \<mapsto> data)\<rparr>)))"

text \<open>
  Reading a file back the way it was written, \<^verbatim>\<open>open(path, encoding="utf-8").read()\<close>.
  The program has no such call; the claim on what Save writes is stated with it.
\<close>

definition read_text :: "str \<Rightarrow> filesystem \<Rightarrow> py_error + str" where
  "read_text path fs =
     (case files fs path of
        None \<Rightarrow> Inl FileNotFoundError
      | Some data \<Rightarrow>
          (case utf8_decode data of
             Inl err \<Rightarrow> Inl err
           | Inr s \<Rightarrow> Inr (universal_newlines s)))"

section \<open>The window\<close>

text \<open>The two lookup tables, in the order of the source.\<close>

definition MODELS :: "(str \<times> str) list" where
  "MODELS =
     [(ascii ''Tiny'', ascii ''tiny''),
      (ascii ''Base'', ascii ''base''),
      (ascii ''Small'', ascii ''small''),
      (ascii ''Medium'', ascii ''medium''),
      (ascii ''Large'' @ [0x202F] @ ascii ''v3 (CPU lourd)'', ascii ''large-v3'')]"

definition LANGS :: "(str \<times> str) list" where
  "LANGS =
     [(ascii ''Fran'' @ [0xE7] @ ascii ''ais'', ascii ''fr''),
      (ascii ''Anglais'', ascii ''en''),
      (ascii ''Espagnol'', ascii ''es''),
      (ascii ''Allemand'', ascii ''de''),
      (ascii ''Italien'', ascii ''it''),
      (ascii ''Portugais'', ascii ''pt''),
      (ascii ''N'' @ [0xE9] @ ascii ''erlandais'', ascii ''nl''),
      (ascii ''Russe'', ascii ''ru''),
      (ascii ''Arabe'', ascii ''ar''),
      (ascii ''Chinois'', ascii ''zh''),
      (ascii ''Japonais'', ascii ''ja'')]"

definition DEFAULT_LANG :: str where
  "DEFAULT_LANG = ascii ''Fran'' @ [0xE7] @ ascii ''ais''"

text \<open>\<^verbatim>\<open>d[key]\<close> on a dict raises \<^verbatim>\<open>KeyError\<close> on a missing key.\<close>

definition getitem :: "(str \<times> str) list \<Rightarrow> str \<Rightarrow> py_error + str" where
  "getitem d k = (case map_of d k of None \<Rightarrow> Inl (KeyError k) | Some v \<Rightarrow> Inr v)"

text \<open>
  The state of a button, and the calls of \<^verbatim>\<open>messagebox\<close> (title, message), which are kept
  in the order they are made. \<open>ShowErrorOf\<close> is \<^verbatim>\<open>showerror(title, str(e))\<close> for an
  exception \<open>e\<close> caught by the handler.
\<close>

datatype btn_state = Normal | Disabled

datatype dialog = ShowError str str | ShowInfo str str | ShowErrorOf str py_error

text \<open>
  The attributes and widgets of \<open>App\<close> that the handlers read or write. \<open>thread\<close> holds
  the arguments of the last worker thread created and \<open>started\<close> every call of
  \<^verbatim>\<open>Thread.start\<close>; \<open>full_text\<close> is \<open>None\<close> as long as the attribute has not been
  assigned (\<^verbatim>\<open>__init__\<close> does not assign it).
\<close>

record app =
  q :: "event list"
  thread :: "(str \<times> str \<times> str) option"
  started :: "(str \<times> str \<times> str) list"
  combo_model :: str
  combo_lang :: str
  entry_file :: str
  progress :: real
  "txt" :: str
  btn_start :: btn_state
  btn_save :: btn_state
  full_text :: "str option"
  dialogs :: "dialog list"

text \<open>The window as \<^verbatim>\<open>__init__\<close> leaves it.\<close>

definition App_init :: app where
  "App_init =
     \<lparr>q = [], thread = None, started = [],
      combo_model = ascii ''Large'' @ [0x202F] @ ascii ''v3 (CPU lourd)'',
      combo_lang = DEFAULT_LANG,
      entry_file = [], progress = 0, txt = [],
      btn_start = Disabled, btn_save = Disabled,
      full_text = None, dialogs = []\<rparr>"

text \<open>\<open>browse_file\<close>, given the path the file dialog returned (empty when cancelled).\<close>

definition browse_file :: "str \<Rightarrow> app \<Rightarrow> app" where
  "browse_file path s =
     (if path \<noteq> [] then s\<lparr>entry_file := path, btn_start := Normal\<rparr> else s)"

text \<open>
  \<open>start_transcription\<close> returns the exception that left the handler, if any, and the
  window after the call.
\<close>

definition start_transcription :: "filesystem \<Rightarrow> app \<Rightarrow> py_error option \<times> app" where
  "start_transcription fs s =
     (let audio_path = entry_file s in
      if \<not> isfile fs audio_path then
        (None,
         s\<lparr>dialogs := dialogs s @ [ShowError (ascii ''Erreur'') (ascii ''Fichier invalide.'')]\<rparr>)
      else
        (let s1 = s\<lparr>txt := [], progress := 0, btn_start := Disabled, btn_save := Disabled\<rparr> in
         case getitem MODELS (combo_model s1) of
           Inl err \<Rightarrow> (Some err, s1)
         | Inr model_size \<Rightarrow>
             (case getitem LANGS (combo_lang s1) of
                Inl err \<Rightarrow> (Some err, s1)
              | Inr lang_code \<Rightarrow>
                  (None,
                   s1\<lparr>q := [],
                      thread := Some (audio_path, model_size, lang_code),
                      started := started s1 @ [(audio_path, model_size, lang_code)]\<rparr>))))"

text \<open>One turn of the \<^verbatim>\<open>while True\<close> loop of \<open>poll_queue\<close>, after \<^verbatim>\<open>get_nowait\<close>.\<close>

definition apply_event :: "event \<Rightarrow> app \<Rightarrow> app" where
  "apply_event ev s =
     (case ev of
        Progress payload \<Rightarrow> s\<lparr>progress := payload\<rparr>
      | TextChunk payload \<Rightarrow> s\<lparr>txt := txt s @ payload\<rparr>
      | Done payload \<Rightarrow>
          s\<lparr>full_text := Some payload,
            btn_save := Normal,
            dialogs := dialogs s @
              [ShowInfo (ascii ''Termin'' @ [0xE9])
                 (ascii ''Transcription termin'' @ [0xE9] @ ascii ''e !'')]\<rparr>
      | Error payload \<Rightarrow>
          s\<lparr>dialogs := dialogs s @ [ShowError (ascii ''Erreur'') payload],
            btn_start := Normal\<rparr>)"

text \<open>
  \<open>poll_queue\<close> takes events off the queue until \<^verbatim>\<open>queue.Empty\<close>. (The timer that calls
  it again is not part of the model.)
\<close>

function poll_queue :: "app \<Rightarrow> app" where
  "poll_queue s =
     (case q s of
        [] \<Rightarrow> s
      | ev # rest \<Rightarrow> poll_queue (apply_event ev (s\<lparr>q := rest\<rparr>)))"
  by pat_completeness auto
termination
  by (relation "measure (\<lambda>s. length (q s))")
    (auto simp: apply_event_def split: event.splits)

declare poll_queue.simps [simp del]

text \<open>
  \<open>save_txt\<close>, given the path the save dialog returned. The file is opened before
  \<^verbatim>\<open>self.full_text\<close> is read; every exception is caught and shown.
\<close>

definition save_txt :: "str \<Rightarrow> filesystem \<Rightarrow> app \<Rightarrow> filesystem \<times> app" where
  "save_txt path fs s =
     (if path \<noteq> [] then
        (case open_w path fs of
           Inl err \<Rightarrow> (fs, s\<lparr>dialogs := dialogs s @ [ShowErrorOf (ascii ''Erreur'') err]\<rparr>)
         | Inr fs1 \<Rightarrow>
             (case full_text s of
                None \<Rightarrow>
                  (fs1,
                   s\<lparr>dialogs := dialogs s @
                      [ShowErrorOf (ascii ''Erreur'')
                         (AttributeError
                            ([0x27] @ ascii ''App'' @ [0x27] @ ascii '' object has no attribute ''
                               @ [0x27] @ ascii ''full_text'' @ [0x27]))]\<rparr>)
              | Some t \<Rightarrow>
                  (case write_text path t fs1 of
                     (Some err, fs2) \<Rightarrow>
                       (fs2, s\<lparr>dialogs := dialogs s @ [ShowErrorOf (ascii ''Erreur'') err]\<rparr>)
                   | (None, fs2) \<Rightarrow>
                       (fs2,
                        s\<lparr>dialogs := dialogs s @
                           [ShowInfo (ascii ''Enregistr'' @ [0xE9])
                              (ascii ''Fichier enregistr'' @ [0xE9] @ ascii '' :'' @ [10]
                                 @ path)]\<rparr>))))
      else (fs, s))"

text \<open>A button in state \<^verbatim>\<open>disabled\<close> does not call its command.\<close>

definition click_start :: "filesystem \<Rightarrow> app \<Rightarrow> py_error option \<times> app" where
  "click_start fs s = (if btn_start s = Normal then start_transcription fs s else (None, s))"

definition click_save :: "str \<Rightarrow> filesystem \<Rightarrow> app \<Rightarrow> filesystem \<times> app" where
  "click_save path fs s = (if btn_save s = Normal then save_txt path fs s else (fs, s))"

text \<open>
  The thread created by \<open>start_transcription\<close> runs \<open>worker_transcribe\<close> on the queue of
  the window. \<open>run_thread\<close> lets it run to its end before the next poll.
\<close>

definition run_thread :: "'m engine \<Rightarrow> app \<Rightarrow> app" where
  "run_thread eng s =
     (case thread s of
        None \<Rightarrow> s
      | Some (audio_path, model_size, lang_code) \<Rightarrow>
          s\<lparr>q := snd (worker_transcribe eng audio_path model_size lang_code (q s))\<rparr>)"

section \<open>Engines and machines for the examples\<close>

definition engine_yielding :: "segment list \<Rightarrow> real option \<Rightarrow> unit engine" where
  "engine_yielding segs d =
     \<lparr>WhisperModel = (\<lambda>model_size. Inr ()),
      transcribe = (\<lambda>m audio_path lang_code. Inr (Generator segs None, d))\<rparr>"

definition engine_raising :: "segment list \<Rightarrow> str \<Rightarrow> real option \<Rightarrow> unit engine" where
  "engine_raising segs msg d =
     \<lparr>WhisperModel = (\<lambda>model_size. Inr ()),
      transcribe = (\<lambda>m audio_path lang_code. Inr (Generator segs (Some msg), d))\<rparr>"

definition engine_load_fails :: "str \<Rightarrow> unit engine" where
  "engine_load_fails msg =
     \<lparr>WhisperModel = (\<lambda>model_size. Inl msg),
      transcribe = (\<lambda>m audio_path lang_code. Inr (Generator [] None, None))\<rparr>"

definition seg :: "real \<Rightarrow> real \<Rightarrow> str \<Rightarrow> segment" where
  "seg a b t = \<lparr>seg_start = a, seg_end = b, seg_text = t\<rparr>"

text \<open>A machine with one audio file, every path writable, and the given \<^verbatim>\<open>os.linesep\<close>.\<close>

definition machine :: "str \<Rightarrow> str \<Rightarrow> filesystem" where
  "machine sep path =
     \<lparr>files = (\<lambda>p. if p = path then Some [0x52, 0x49, 0x46, 0x46] else None),
      open_error = (\<lambda>p. None),
      write_error = (\<lambda>p. None),
      linesep = sep\<rparr>"

definition one_file :: "str \<Rightarrow> filesystem" where
  "one_file path = machine [10] path"

text \<open>The window after a first run that ended with \<^verbatim>\<open>done\<close>.\<close>

definition first_run_done :: app where
  "first_run_done =
     poll_queue (run_thread (engine_yielding [seg 0 1 (ascii ''a'')] (Some 1))
       (snd (click_start (one_file (ascii ''a.wav'')) (browse_file (ascii ''a.wav'') App_init))))"

section \<open>Lemmas on the worker\<close>

lemma duration_or_1_nonzero: "duration_or_1 d \<noteq> 0"
  by (simp add: duration_or_1_def split: option.split)

lemma segments_loop_eq:
  "duration \<noteq> 0 \<Longrightarrow>
   segments_loop duration segs r dn ft qu =
     (map_option EngineError r, ft @ loop_text segs, qu @ loop_events duration dn segs)"
  by (induction segs arbitrary: dn ft qu)
    (simp_all add: truediv_def loop_text_def Let_def split: option.split)

lemma worker_transcribe_load_fails:
  "WhisperModel eng model_size = Inl e \<Longrightarrow>
   worker_transcribe eng audio_path model_size lang_code qu =
     (None,
      qu @ [Error (ascii ''Erreur chargement mod'' @ [0xE8] @ ascii ''le'' @ [0xA0]
                     @ ascii '': '' @ e)])"
  by (simp add: worker_transcribe_def)

lemma worker_transcribe_transcribe_fails:
  "WhisperModel eng model_size = Inr m \<Longrightarrow> transcribe eng m audio_path lang_code = Inl e \<Longrightarrow>
   worker_transcribe eng audio_path model_size lang_code qu =
     (None, qu @ [Error (ascii ''Erreur transcription'' @ [0xA0] @ ascii '': '' @ e)])"
  by (simp add: worker_transcribe_def)

lemma worker_transcribe_exhausted:
  "WhisperModel eng model_size = Inr m \<Longrightarrow>
   transcribe eng m audio_path lang_code = Inr (Generator segs None, d) \<Longrightarrow>
   worker_transcribe eng audio_path model_size lang_code qu =
     (None, qu @ loop_events (duration_or_1 d) 0 segs @ [Done (loop_text segs)])"
  by (simp add: worker_transcribe_def segments_loop_eq duration_or_1_nonzero)

lemma worker_transcribe_raised:
  "WhisperModel eng model_size = Inr m \<Longrightarrow>
   transcribe eng m audio_path lang_code = Inr (Generator segs (Some e), d) \<Longrightarrow>
   worker_transcribe eng audio_path model_size lang_code qu =
     (Some (EngineError e), qu @ loop_events (duration_or_1 d) 0 segs)"
  by (simp add: worker_transcribe_def segments_loop_eq duration_or_1_nonzero)

text \<open>The four ways a call of the worker can go.\<close>

lemma worker_transcribe_cases:
  obtains
    (load) e where "WhisperModel eng ms = Inl e"
      "\<And>qu. worker_transcribe eng a ms lc qu =
         (None, qu @ [Error (ascii ''Erreur chargement mod'' @ [0xE8] @ ascii ''le'' @ [0xA0]
                               @ ascii '': '' @ e)])"
  | (transcribe) m e where "WhisperModel eng ms = Inr m" "transcribe eng m a lc = Inl e"
      "\<And>qu. worker_transcribe eng a ms lc qu =
         (None, qu @ [Error (ascii ''Erreur transcription'' @ [0xA0] @ ascii '': '' @ e)])"
  | (exhausted) m segs d where "WhisperModel eng ms = Inr m"
      "transcribe eng m a lc = Inr (Generator segs None, d)"
      "\<And>qu. worker_transcribe eng a ms lc qu =
         (None, qu @ loop_events (duration_or_1 d) 0 segs @ [Done (loop_text segs)])"
  | (raised) m segs e d where "WhisperModel eng ms = Inr m"
      "transcribe eng m a lc = Inr (Generator segs (Some e), d)"
      "\<And>qu. worker_transcribe eng a ms lc qu =
         (Some (EngineError e), qu @ loop_events (duration_or_1 d) 0 segs)"
proof (cases "WhisperModel eng ms")
  case (Inl e)
  then show ?thesis by (rule load) (rule worker_transcribe_load_fails [OF Inl])
next
  case (Inr m)
  show ?thesis
  proof (cases "transcribe eng m a lc")
    case (Inl e)
    with Inr show ?thesis
      by (intro transcribe [of m e]) (simp_all add: worker_transcribe_transcribe_fails)
  next
    case inner: (Inr r)
    obtain g d where r: "r = (g, d)" by (cases r)
    obtain segs e where g: "g = Generator segs e" by (cases g)
    show ?thesis
    proof (cases e)
      case None
      with Inr inner r g show ?thesis
        by (intro exhausted [of m segs d]) (simp_all add: worker_transcribe_exhausted)
    next
      case (Some msg)
      with Inr inner r g show ?thesis
        by (intro raised [of m segs msg d]) (simp_all add: worker_transcribe_raised)
    qed
  qed
qed

lemma worker_transcribe_eq:
  "worker_transcribe eng a ms lc qu =
     (fst (worker_transcribe eng a ms lc []), qu @ worker_events eng a ms lc)"
  by (cases eng a ms lc rule: worker_transcribe_cases) (simp_all add: worker_events_def)

lemma worker_events_exhausted:
  "WhisperModel eng ms = Inr m \<Longrightarrow> transcribe eng m a lc = Inr (Generator segs None, d) \<Longrightarrow>
   worker_events eng a ms lc = loop_events (duration_or_1 d) 0 segs @ [Done (loop_text segs)]"
  by (simp add: worker_events_def worker_transcribe_exhausted)

lemma worker_events_raised:
  "WhisperModel eng ms = Inr m \<Longrightarrow> transcribe eng m a lc = Inr (Generator segs (Some e), d) \<Longrightarrow>
   worker_events eng a ms lc = loop_events (duration_or_1 d) 0 segs"
  by (simp add: worker_events_def worker_transcribe_raised)

lemma worker_events_load_fails:
  "WhisperModel eng ms = Inl e \<Longrightarrow>
   worker_events eng a ms lc =
     [Error (ascii ''Erreur chargement mod'' @ [0xE8] @ ascii ''le'' @ [0xA0] @ ascii '': '' @ e)]"
  by (simp add: worker_events_def worker_transcribe_load_fails)

lemma progress_payloads_append:
  "progress_payloads (xs @ ys) = progress_payloads xs @ progress_payloads ys"
  by (induction xs rule: progress_payloads.induct) simp_all

lemma text_payloads_append:
  "text_payloads (xs @ ys) = text_payloads xs @ text_payloads ys"
  by (induction xs rule: text_payloads.induct) simp_all

lemma run_shape_loop: "run_shape (loop_events duration dn segs @ [Done t])"
  by (induction segs arbitrary: dn) simp_all

lemma not_run_shape_loop: "\<not> run_shape (loop_events duration dn segs)"
  by (induction segs arbitrary: dn) simp_all

lemma text_payloads_loop: "text_payloads (loop_events duration dn segs) = map seg_text segs"
  by (induction segs arbitrary: dn) simp_all

lemma loop_events_empty: "loop_events duration dn segs = [] \<longleftrightarrow> segs = []"
  by (cases segs) simp_all

lemma last_loop_not_done: "segs \<noteq> [] \<Longrightarrow> last (loop_events duration dn segs) \<noteq> Done t"
  by (induction segs arbitrary: dn) (auto simp: loop_events_empty)

lemma progress_payloads_loop_le:
  "\<forall>p\<in>set (progress_payloads (loop_events duration dn segs)). p \<le> 1"
  by (induction segs arbitrary: dn) simp_all

lemma progress_payloads_loop_ge:
  "0 < duration \<Longrightarrow> \<forall>s\<in>set segs. seg_start s \<le> seg_end s \<Longrightarrow>
   \<forall>p\<in>set (progress_payloads (loop_events duration dn segs)). min (dn / duration) 1 \<le> p"
proof (induction segs arbitrary: dn)
  case Nil
  then show ?case by simp
next
  case (Cons s segs)
  let ?dn = "dn + (seg_end s - seg_start s)"
  have le: "dn / duration \<le> ?dn / duration"
    using Cons.prems by (simp add: divide_right_mono)
  then have m: "min (dn / duration) 1 \<le> min (?dn / duration) 1"
    by (simp add: min_def)
  have IH: "\<forall>p\<in>set (progress_payloads (loop_events duration ?dn segs)). min (?dn / duration) 1 \<le> p"
    using Cons.IH [of ?dn] Cons.prems by simp
  show ?case
  proof
    fix p
    assume "p \<in> set (progress_payloads (loop_events duration dn (s # segs)))"
    then consider "p = min (?dn / duration) 1"
      | "p \<in> set (progress_payloads (loop_events duration ?dn segs))"
      by auto
    then show "min (dn / duration) 1 \<le> p"
    proof cases
      case 1
      with m show ?thesis by simp
    next
      case 2
      with IH have "min (?dn / duration) 1 \<le> p" by blast
      with m show ?thesis by (rule order_trans)
    qed
  qed
qed

lemma progress_payloads_loop_sorted:
  "0 < duration \<Longrightarrow> \<forall>s\<in>set segs. seg_start s \<le> seg_end s \<Longrightarrow>
   sorted (progress_payloads (loop_events duration dn segs))"
proof (induction segs arbitrary: dn)
  case Nil
  then show ?case by simp
next
  case (Cons s segs)
  then show ?case
    using progress_payloads_loop_ge [of duration segs "dn + (seg_end s - seg_start s)"]
    by simp
qed

section \<open>Lemmas on the codec and the line breaks\<close>

lemma decode_1:
  assumes "c < 0x80"
  shows "decode_bytes 0 0 0 (c # r) = map_option ((#) c) (decode_bytes 0 0 0 r)"
  using assms by simp

lemma decode_2:
  assumes "0x80 \<le> c" "c < 0x800"
  shows "decode_bytes 0 0 0 ((0xC0 + c div 0x40) # (0x80 + c mod 0x40) # r) =
         map_option ((#) c) (decode_bytes 0 0 0 r)"
proof -
  define h l where "h = c div 0x40" and "l = c mod 0x40"
  have c: "h * 0x40 + l = c" by (simp add: h_def l_def)
  have l: "l < 0x40" by (simp add: l_def)
  have h: "2 \<le> h" "h \<le> 31" using assms c l by arith+
  have "cont (0x80 + l)" using l by (simp add: cont_def)
  moreover have "0x80 \<le> h * 0x40 + l" using c assms by simp
  ultimately show ?thesis
    unfolding h_def [symmetric] l_def [symmetric]
    using h l c assms by (simp add: Let_def)
qed

lemma decode_3:
  assumes "0x800 \<le> c" "c < 0x10000" "\<not> (0xD800 \<le> c \<and> c \<le> 0xDFFF)"
  shows "decode_bytes 0 0 0
           ((0xE0 + c div 0x1000) # (0x80 + c div 0x40 mod 0x40) # (0x80 + c mod 0x40) # r) =
         map_option ((#) c) (decode_bytes 0 0 0 r)"
proof -
  define h m l where "h = c div 0x1000" and "m = c div 0x40 mod 0x40" and "l = c mod 0x40"
  have l: "l < 0x40" and m: "m < 0x40" by (simp_all add: l_def m_def)
  have "c div (0x40 * 0x40) = c div 0x40 div 0x40" by (rule div_mult2_eq)
  then have "h = c div 0x40 div 0x40" by (simp add: h_def)
  then have c: "(h * 0x40 + m) * 0x40 + l = c"
    unfolding m_def l_def by simp
  have h: "h \<le> 15" using assms by (simp add: h_def)
  have "cont (0x80 + l)" "cont (0x80 + m)" using l m by (simp_all add: cont_def)
  then show ?thesis
    unfolding h_def [symmetric] l_def [symmetric] m_def [symmetric]
    using h l m c assms by (simp add: Let_def)
qed

lemma decode_4:
  assumes "0x10000 \<le> c" "c < 0x110000"
  shows "decode_bytes 0 0 0
           ((0xF0 + c div 0x40000) # (0x80 + c div 0x1000 mod 0x40) #
            (0x80 + c div 0x40 mod 0x40) # (0x80 + c mod 0x40) # r) =
         map_option ((#) c) (decode_bytes 0 0 0 r)"
proof -
  define h n m l where "h = c div 0x40000" and "n = c div 0x1000 mod 0x40"
    and "m = c div 0x40 mod 0x40" and "l = c mod 0x40"
  have l: "l < 0x40" and m: "m < 0x40" and n: "n < 0x40" by (simp_all add: l_def m_def n_def)
  have "c div (0x40 * 0x40) = c div 0x40 div 0x40" by (rule div_mult2_eq)
  then have n': "n = c div 0x40 div 0x40 mod 0x40" by (simp add: n_def)
  have "c div (0x40 * 0x40 * 0x40) = c div 0x40 div 0x40 div 0x40" by (simp only: div_mult2_eq)
  then have "h = c div 0x40 div 0x40 div 0x40" by (simp add: h_def)
  then have c: "((h * 0x40 + n) * 0x40 + m) * 0x40 + l = c"
    unfolding n' m_def l_def by simp
  have h: "h \<le> 4" using assms by (simp add: h_def)
  have "cont (0x80 + l)" "cont (0x80 + m)" "cont (0x80 + n)" using l m n by (simp_all add: cont_def)
  then show ?thesis
    unfolding h_def [symmetric] l_def [symmetric] m_def [symmetric] n_def [symmetric]
    using h l m n c assms by (simp add: Let_def)
qed

lemma decode_encode_char:
  assumes "encode_char c = Some bs"
  shows "decode_bytes 0 0 0 (bs @ r) = map_option ((#) c) (decode_bytes 0 0 0 r)"
proof -
  consider "c < 0x80" | "0x80 \<le> c" "c < 0x800"
    | "0x800 \<le> c" "c < 0x10000" "\<not> (0xD800 \<le> c \<and> c \<le> 0xDFFF)"
    | "0x10000 \<le> c" "c < 0x110000"
    using assms by (auto simp: encode_char_def split: if_splits)
  then show ?thesis
  proof cases
    case 1
    with assms have "bs = [c]" by (simp add: encode_char_def)
    then show ?thesis using 1 by (simp only: append_Cons append_Nil) (rule decode_1)
  next
    case 2
    with assms have "bs = [0xC0 + c div 0x40, 0x80 + c mod 0x40]"
      by (simp add: encode_char_def)
    then show ?thesis using 2 by (simp only: append_Cons append_Nil) (rule decode_2)
  next
    case 3
    with assms have "bs = [0xE0 + c div 0x1000, 0x80 + c div 0x40 mod 0x40, 0x80 + c mod 0x40]"
      by (simp add: encode_char_def)
    then show ?thesis using 3 by (simp only: append_Cons append_Nil) (rule decode_3)
  next
    case 4
    with assms have "bs = [0xF0 + c div 0x40000, 0x80 + c div 0x1000 mod 0x40,
              0x80 + c div 0x40 mod 0x40, 0x80 + c mod 0x40]"
      by (simp add: encode_char_def)
    then show ?thesis using 4 by (simp only: append_Cons append_Nil) (rule decode_4)
  qed
qed

lemma encode_char_bytes: "encode_char c = Some bs \<Longrightarrow> b \<in> set bs \<Longrightarrow> b < 256"
  by (auto simp: encode_char_def split: if_splits)

lemma decode_encode_from:
  "encode_from i s = Inr ns \<Longrightarrow> decode_bytes 0 0 0 ns = Some s"
proof (induction s arbitrary: i ns)
  case Nil
  then show ?case by simp
next
  case (Cons c cs)
  from Cons.prems obtain bs rest where
    bs: "encode_char c = Some bs" and rest: "encode_from (Suc i) cs = Inr rest"
    and ns: "ns = bs @ rest"
    by (auto split: option.splits sum.splits)
  from rest have "decode_bytes 0 0 0 rest = Some cs" by (rule Cons.IH)
  with bs ns show ?case by (simp add: decode_encode_char)
qed

lemma encode_from_bytes:
  "encode_from i s = Inr ns \<Longrightarrow> b \<in> set ns \<Longrightarrow> b < 256"
proof (induction s arbitrary: i ns)
  case Nil
  then show ?case by simp
next
  case (Cons c cs)
  from Cons.prems(1) obtain bs rest where
    bs: "encode_char c = Some bs" and rest: "encode_from (Suc i) cs = Inr rest"
    and ns: "ns = bs @ rest"
    by (auto split: option.splits sum.splits)
  from Cons.prems(2) ns consider "b \<in> set bs" | "b \<in> set rest" by auto
  then show ?case
  proof cases
    case 1
    with bs show ?thesis by (rule encode_char_bytes)
  next
    case 2
    with rest show ?thesis by (rule Cons.IH)
  qed
qed

lemma unat_of_nat_bytes:
  "\<forall>b\<in>set ns. b < 256 \<Longrightarrow> map unat (map of_nat ns :: byte list) = ns"
  by (induction ns) (simp_all add: unsigned_of_nat take_bit_nat_eq_self)

lemma utf8_decode_encode: "utf8_encode s = Inr bs \<Longrightarrow> utf8_decode bs = Inr s"
proof -
  assume a: "utf8_encode s = Inr bs"
  then obtain ns where ns: "encode_from 0 s = Inr ns" and bs: "bs = map of_nat ns"
    by (auto simp: utf8_encode_def split: sum.splits)
  have "map unat bs = ns"
    unfolding bs using encode_from_bytes [OF ns] by (intro unat_of_nat_bytes) blast
  with decode_encode_from [OF ns] show ?thesis by (simp add: utf8_decode_def)
qed

lemma universal_translate_lf:
  "13 \<notin> set s \<Longrightarrow> universal_newlines (translate_newlines [10] s) = s"
  by (induction s) (simp_all add: translate_newlines_def)

lemma universal_translate_crlf:
  "13 \<notin> set s \<Longrightarrow> universal_newlines (translate_newlines [13, 10] s) = s"
  by (induction s) (simp_all add: translate_newlines_def)

section \<open>Lemmas on the window\<close>

lemma apply_event_simps:
  "apply_event (Progress p) s = s\<lparr>progress := p\<rparr>"
  "apply_event (TextChunk c) s = s\<lparr>txt := txt s @ c\<rparr>"
  "apply_event (Done t) s =
     s\<lparr>full_text := Some t, btn_save := Normal,
       dialogs := dialogs s @
         [ShowInfo (ascii ''Termin'' @ [0xE9])
            (ascii ''Transcription termin'' @ [0xE9] @ ascii ''e !'')]\<rparr>"
  "apply_event (Error m) s =
     s\<lparr>dialogs := dialogs s @ [ShowError (ascii ''Erreur'') m], btn_start := Normal\<rparr>"
  by (simp_all add: apply_event_def)

lemma apply_event_btn_start:
  "btn_start (apply_event (Progress p) s) = btn_start s"
  "btn_start (apply_event (TextChunk c) s) = btn_start s"
  "btn_start (apply_event (Done t) s) = btn_start s"
  "btn_start (apply_event (Error m) s) = Normal"
  by (simp_all add: apply_event_simps)

lemma apply_event_q_update: "apply_event ev (s\<lparr>q := r\<rparr>) = (apply_event ev s)\<lparr>q := r\<rparr>"
  by (cases ev) (simp_all add: apply_event_def)

lemma q_apply_event: "q (apply_event ev s) = q s"
  by (cases ev) (simp_all add: apply_event_def)

lemma fold_apply_event_q_update:
  "fold apply_event evs (s\<lparr>q := r\<rparr>) = (fold apply_event evs s)\<lparr>q := r\<rparr>"
  by (induction evs arbitrary: s) (simp_all add: apply_event_q_update)

lemma poll_queue_fold: "poll_queue s = (fold apply_event (q s) s)\<lparr>q := []\<rparr>"
proof (induction "q s" arbitrary: s)
  case Nil
  have "poll_queue s = s"
    using Nil [symmetric] by (subst poll_queue.simps) simp
  moreover have "s\<lparr>q := q s\<rparr> = s" by simp
  ultimately show ?case using Nil [symmetric] by simp
next
  case (Cons ev rest)
  let ?s' = "apply_event ev (s\<lparr>q := rest\<rparr>)"
  have qs': "rest = q ?s'" by (simp add: q_apply_event)
  have "poll_queue s = poll_queue ?s'"
    using Cons.hyps(2) [symmetric] by (subst poll_queue.simps) simp
  also have "\<dots> = (fold apply_event (q ?s') ?s')\<lparr>q := []\<rparr>"
    using qs' by (rule Cons.hyps(1))
  also have "\<dots> = (fold apply_event (q s) s)\<lparr>q := []\<rparr>"
    using Cons.hyps(2) [symmetric]
    by (simp add: q_apply_event apply_event_q_update fold_apply_event_q_update)
  finally show ?case .
qed

lemma txt_fold: "txt (fold apply_event evs s) = txt s @ concat (text_payloads evs)"
proof (induction evs arbitrary: s)
  case Nil
  show ?case by simp
next
  case (Cons ev evs)
  show ?case by (cases ev) (simp_all add: Cons.IH apply_event_simps)
qed

lemma full_text_fold:
  "full_text (fold apply_event evs s) =
     (case last_done evs of None \<Rightarrow> full_text s | Some t \<Rightarrow> Some t)"
proof (induction evs arbitrary: s)
  case Nil
  show ?case by simp
next
  case (Cons ev evs)
  show ?case by (cases ev) (simp_all add: Cons.IH apply_event_simps split: option.split)
qed

lemma btn_save_fold:
  "btn_save (fold apply_event evs s) =
     (case last_done evs of None \<Rightarrow> btn_save s | Some t \<Rightarrow> Normal)"
proof (induction evs arbitrary: s)
  case Nil
  show ?case by simp
next
  case (Cons ev evs)
  show ?case by (cases ev) (simp_all add: Cons.IH apply_event_simps split: option.split)
qed





lemma start_transcription_ok:
  "isfile fs (entry_file s) \<Longrightarrow> map_of MODELS (combo_model s) = Some ms \<Longrightarrow>
   map_of LANGS (combo_lang s) = Some lc \<Longrightarrow>
   start_transcription fs s =
     (None,
      s\<lparr>txt := [], progress := 0, btn_start := Disabled, btn_save := Disabled, q := [],
        thread := Some (entry_file s, ms, lc),
        started := started s @ [(entry_file s, ms, lc)]\<rparr>)"
  by (simp add: start_transcription_def getitem_def Let_def)

lemma last_done_of_last:
  "last evs = Done t \<Longrightarrow> evs \<noteq> [] \<Longrightarrow> last_done evs = Some t"
proof (induction evs)
  case Nil
  then show ?case by simp
next
  case (Cons ev evs)
  show ?case
  proof (cases "evs = []")
    case True
    with Cons.prems show ?thesis by simp
  next
    case False
    with Cons have "last_done evs = Some t" by simp
    then show ?thesis by (cases ev) simp_all
  qed
qed

lemma run_thread_after_start:
  "isfile fs (entry_file s) \<Longrightarrow> map_of MODELS (combo_model s) = Some ms \<Longrightarrow>
   map_of LANGS (combo_lang s) = Some lc \<Longrightarrow>
   run_thread eng (snd (start_transcription fs s)) =
     (snd (start_transcription fs s))\<lparr>q := worker_events eng (entry_file s) ms lc\<rparr>"
  by (simp add: start_transcription_ok run_thread_def worker_events_def)

lemma poll_after_start:
  "isfile fs (entry_file s) \<Longrightarrow> map_of MODELS (combo_model s) = Some ms \<Longrightarrow>
   map_of LANGS (combo_lang s) = Some lc \<Longrightarrow>
   poll_queue (run_thread eng (snd (start_transcription fs s))) =
     (fold apply_event (worker_events eng (entry_file s) ms lc)
        (snd (start_transcription fs s)))\<lparr>q := []\<rparr>"
  by (simp add: run_thread_after_start poll_queue_fold fold_apply_event_q_update)

section \<open>Lemmas on Save and on a returning worker\<close>

lemma translate_newlines_lf: "translate_newlines [10] s = s"
  by (induction s) (simp_all add: translate_newlines_def)

lemma worker_returns_shape:
  "fst (worker_transcribe eng a ms lc []) = None \<Longrightarrow> run_shape (worker_events eng a ms lc)"
  by (cases eng a ms lc rule: worker_transcribe_cases)
    (simp_all add: worker_events_def run_shape_loop)

lemma worker_raised_no_shape:
  "WhisperModel eng ms = Inr m \<Longrightarrow> transcribe eng m a lc = Inr (Generator segs (Some e), d) \<Longrightarrow>
   fst (worker_transcribe eng a ms lc qu) = Some (EngineError e) \<and>
   \<not> run_shape (worker_events eng a ms lc)"
  by (simp add: worker_transcribe_raised worker_events_raised not_run_shape_loop)

lemma save_txt_ok:
  assumes "path \<noteq> []"
    and "open_error fs path = None"
    and "write_error fs path = None"
    and "full_text s = Some t"
    and "utf8_encode (translate_newlines (linesep fs) t) = Inr data"
  shows "files (fst (save_txt path fs s)) path = Some data"
  using assms by (simp add: save_txt_def open_w_def write_text_def)

lemma read_text_written:
  assumes "files fs path = Some data"
    and "utf8_encode u = Inr data"
  shows "read_text path fs = Inr (universal_newlines u)"
  using assms by (simp add: read_text_def utf8_decode_encode)

lemma universal_translate:
  assumes "13 \<notin> set t"
    and "sep = [10] \<or> sep = [13, 10]"
  shows "universal_newlines (translate_newlines sep t) = t"
  using assms by (auto simp: universal_translate_lf universal_translate_crlf)

section \<open>The examples, evaluated\<close>

lemma example_lookups:
  "map_of MODELS (ascii ''Large'' @ [0x202F] @ ascii ''v3 (CPU lourd)'') = Some (ascii ''large-v3'')"
  "map_of MODELS (ascii ''Large'' @ 0x202F # ascii ''v3 (CPU lourd)'') = Some (ascii ''large-v3'')"
  "map_of LANGS DEFAULT_LANG = Some (ascii ''fr'')"
  by (simp_all add: MODELS_def LANGS_def DEFAULT_LANG_def ascii_def)

lemma example_machine:
  "isfile (machine sep path) path"
  "open_error (machine sep path) p = None"
  "write_error (machine sep path) p = None"
  "linesep (machine sep path) = sep"
  by (simp_all add: machine_def isfile_def)

lemma example_events:
  "worker_events (engine_yielding [seg 0 1 t] (Some 1)) a ms lc =
     [Progress 1, TextChunk t, Done (t @ [10])]"
  by (simp add: worker_events_def worker_transcribe_exhausted [where m = "()"]
      engine_yielding_def seg_def duration_or_1_def loop_text_def)

lemma first_run_done_eq:
  "first_run_done =
     \<lparr>q = [], thread = Some (ascii ''a.wav'', ascii ''large-v3'', ascii ''fr''),
      started = [(ascii ''a.wav'', ascii ''large-v3'', ascii ''fr'')],
      combo_model = ascii ''Large'' @ [0x202F] @ ascii ''v3 (CPU lourd)'',
      combo_lang = DEFAULT_LANG,
      entry_file = ascii ''a.wav'', progress = 1, txt = ascii ''a'',
      btn_start = Disabled, btn_save = Normal,
      full_text = Some (ascii ''a'' @ [10]),
      dialogs = [ShowInfo (ascii ''Termin'' @ [0xE9])
                 (ascii ''Transcription termin'' @ [0xE9] @ ascii ''e !'')]\<rparr>"
proof -
  let ?s = "browse_file (ascii ''a.wav'') App_init"
  let ?fs = "one_file (ascii ''a.wav'')"
  have ne: "ascii ''a.wav'' \<noteq> []" by (simp add: ascii_def)
  have s: "?s = App_init\<lparr>entry_file := ascii ''a.wav'', btn_start := Normal\<rparr>"
    using ne by (simp add: browse_file_def)
  have e: "entry_file ?s = ascii ''a.wav''" by (simp add: s)
  have f: "isfile ?fs (entry_file ?s)"
    unfolding e one_file_def by (rule example_machine)
  have m: "map_of MODELS (combo_model ?s) = Some (ascii ''large-v3'')"
    unfolding s by (simp add: App_init_def example_lookups)
  have l: "map_of LANGS (combo_lang ?s) = Some (ascii ''fr'')"
    unfolding s by (simp add: App_init_def example_lookups)
  have c: "click_start ?fs ?s = start_transcription ?fs ?s"
    unfolding s by (simp add: click_start_def)
  have "first_run_done =
      poll_queue (run_thread (engine_yielding [seg 0 1 (ascii ''a'')] (Some 1))
        (snd (start_transcription ?fs ?s)))"
    by (simp only: first_run_done_def c)
  also have "\<dots> =
      (fold apply_event
         (worker_events (engine_yielding [seg 0 1 (ascii ''a'')] (Some 1)) (entry_file ?s)
            (ascii ''large-v3'') (ascii ''fr''))
         (snd (start_transcription ?fs ?s)))\<lparr>q := []\<rparr>"
    by (rule poll_after_start [OF f m l])
  finally show ?thesis
    unfolding example_events start_transcription_ok [OF f m l]
    unfolding s
    by (simp add: apply_event_simps App_init_def)
qed

lemma second_start_eq:
  "click_start (one_file (ascii ''a.wav'')) (browse_file (ascii ''a.wav'') first_run_done) =
     (None,
      first_run_done\<lparr>btn_start := Disabled, btn_save := Disabled, progress := 0, txt := [],
        started := [(ascii ''a.wav'', ascii ''large-v3'', ascii ''fr''),
                    (ascii ''a.wav'', ascii ''large-v3'', ascii ''fr'')]\<rparr>)"
proof -
  let ?s = "browse_file (ascii ''a.wav'') first_run_done"
  let ?fs = "one_file (ascii ''a.wav'')"
  have ne: "ascii ''a.wav'' \<noteq> []" by (simp add: ascii_def)
  have s: "?s = first_run_done\<lparr>btn_start := Normal\<rparr>"
    using ne by (simp add: browse_file_def first_run_done_eq)
  have f: "isfile ?fs (entry_file ?s)"
    unfolding s one_file_def by (simp add: first_run_done_eq example_machine)
  have m: "map_of MODELS (combo_model ?s) = Some (ascii ''large-v3'')"
    unfolding s by (simp add: first_run_done_eq example_lookups)
  have l: "map_of LANGS (combo_lang ?s) = Some (ascii ''fr'')"
    unfolding s by (simp add: first_run_done_eq example_lookups)
  have c: "click_start ?fs ?s = start_transcription ?fs ?s"
    unfolding s by (simp add: click_start_def)
  show ?thesis
    unfolding c start_transcription_ok [OF f m l]
    unfolding s
    by (simp add: first_run_done_eq)
qed

section \<open>The claims\<close>

subsection \<open>C1: the order of the events of a run\<close>

text \<open>
  C1. The claim is that every run posts Progress/TextChunk pairs and then exactly one
  terminal event. The two calls of the engine are inside a \<^verbatim>\<open>try\<close> that posts \<open>Error\<close>, but
  the loop over the segments is not: when the generator of the engine raises during the
  iteration, the exception ends the thread after the pairs posted so far and no terminal
  event follows (\<open>worker_raised_no_shape\<close>; when the worker returns, the shape holds,
  \<open>worker_returns_shape\<close>). Here
  the generator yields one segment and then raises.
\<close>

theorem worker_dies_when_generator_raises:
  "worker_transcribe (engine_raising [seg 0 1 (ascii ''a'')] (ascii ''boom'') (Some 2))
     (ascii ''a.wav'') (ascii ''base'') (ascii ''en'') [] =
     (Some (EngineError (ascii ''boom'')), [Progress (1/2), TextChunk (ascii ''a'')]) \<and>
   \<not> run_shape (worker_events (engine_raising [seg 0 1 (ascii ''a'')] (ascii ''boom'') (Some 2))
     (ascii ''a.wav'') (ascii ''base'') (ascii ''en''))"
  by (simp add: worker_events_def worker_transcribe_raised [where m = "()"]
      engine_raising_def seg_def duration_or_1_def)

subsection \<open>C2: the chunks and the payload of Done\<close>

text \<open>
  C2, as stated, fails: one segment of text \<open>a\<close> gives the single chunk \<open>a\<close>, and the
  payload of \<open>Done\<close> is \<open>a\<close> followed by a line break.
\<close>

theorem chunks_concat_differs_from_done_payload:
  "worker_events (engine_yielding [seg 0 1 (ascii ''a'')] (Some 1))
     (ascii ''a.wav'') (ascii ''base'') (ascii ''en'')
     = [Progress 1, TextChunk (ascii ''a''), Done (ascii ''a'' @ [10])] \<and>
   concat (text_payloads
     (worker_events (engine_yielding [seg 0 1 (ascii ''a'')] (Some 1))
        (ascii ''a.wav'') (ascii ''base'') (ascii ''en'')))
     \<noteq> ascii ''a'' @ [10]"
  by (simp add: example_events)

text \<open>
  C2, amended. When a run ends with \<open>Done\<close>, its payload is the concatenation, in the order
  of emission, of every TextChunk payload followed by a line break.
\<close>

theorem done_payload_is_chunks_with_line_breaks:
  assumes "worker_events eng a ms lc \<noteq> []"
    and "last (worker_events eng a ms lc) = Done t"
  shows "t = concat (map (\<lambda>c. c @ [10]) (text_payloads (worker_events eng a ms lc)))"
proof (cases eng a ms lc rule: worker_transcribe_cases)
  case (load e)
  with assms show ?thesis by (simp add: worker_events_def)
next
  case (transcribe m e)
  with assms show ?thesis by (simp add: worker_events_def)
next
  case (exhausted m segs d)
  then have ev: "worker_events eng a ms lc =
      loop_events (duration_or_1 d) 0 segs @ [Done (loop_text segs)]"
    by (simp add: worker_events_def)
  with assms have "t = loop_text segs" by simp
  then show ?thesis
    by (simp add: ev text_payloads_append text_payloads_loop loop_text_def o_def)
next
  case (raised m segs e d)
  then have ev: "worker_events eng a ms lc = loop_events (duration_or_1 d) 0 segs"
    by (simp add: worker_events_def)
  with assms(1) have "segs \<noteq> []" by (simp add: loop_events_empty)
  then have "last (loop_events (duration_or_1 d) 0 segs) \<noteq> Done t"
    by (rule last_loop_not_done)
  with assms(2) ev show ?thesis by simp
qed

text \<open>
  The scenario of two segments, \<open>Hello\<close> and \<open>world.\<close>, is an instance.
\<close>

theorem done_payload_is_chunks_with_line_breaks_witness:
  "worker_events
      (engine_yielding [seg 0 (12/10) (ascii ''Hello ''), seg (12/10) (25/10) (ascii ''world.'')]
         (Some (25/10)))
      (ascii ''sample.wav'') (ascii ''base'') (ascii ''en'') \<noteq> [] \<and>
   last (worker_events
      (engine_yielding [seg 0 (12/10) (ascii ''Hello ''), seg (12/10) (25/10) (ascii ''world.'')]
         (Some (25/10)))
      (ascii ''sample.wav'') (ascii ''base'') (ascii ''en''))
     = Done (ascii ''Hello '' @ [10] @ ascii ''world.'' @ [10]) \<and>
   ascii ''Hello '' @ [10] @ ascii ''world.'' @ [10] =
     concat (map (\<lambda>c. c @ [10]) (text_payloads (worker_events
      (engine_yielding [seg 0 (12/10) (ascii ''Hello ''), seg (12/10) (25/10) (ascii ''world.'')]
         (Some (25/10)))
      (ascii ''sample.wav'') (ascii ''base'') (ascii ''en''))))"
proof -
  let ?evs = "worker_events
      (engine_yielding [seg 0 (12/10) (ascii ''Hello ''), seg (12/10) (25/10) (ascii ''world.'')]
         (Some (25/10)))
      (ascii ''sample.wav'') (ascii ''base'') (ascii ''en'')"
  have ev: "?evs =
      [Progress (12/25), TextChunk (ascii ''Hello ''), Progress 1, TextChunk (ascii ''world.''),
       Done (ascii ''Hello '' @ [10] @ ascii ''world.'' @ [10])]"
    by (simp add: worker_events_def worker_transcribe_exhausted [where m = "()"]
        engine_yielding_def seg_def duration_or_1_def loop_text_def)
  have h1: "?evs \<noteq> []" unfolding ev by simp
  have h2: "last ?evs = Done (ascii ''Hello '' @ [10] @ ascii ''world.'' @ [10])"
    unfolding ev by simp
  from h1 h2 done_payload_is_chunks_with_line_breaks [OF h1 h2] show ?thesis by (intro conjI)
qed

subsection \<open>C3: the values of Progress\<close>

text \<open>
  C3, as stated, fails: a segment that ends before it starts lowers the running sum, and
  the second Progress value is below the first.
\<close>

theorem progress_decreases_on_reversed_segment:
  "progress_payloads (worker_events
      (engine_yielding [seg 0 1 (ascii ''a''), seg 1 (1/2) (ascii ''b'')] (Some 2))
      (ascii ''a.wav'') (ascii ''base'') (ascii ''en''))
     = [1/2, 1/4] \<and>
   \<not> sorted (progress_payloads (worker_events
      (engine_yielding [seg 0 1 (ascii ''a''), seg 1 (1/2) (ascii ''b'')] (Some 2))
      (ascii ''a.wav'') (ascii ''base'') (ascii ''en'')))"
proof -
  have eq: "progress_payloads (worker_events
      (engine_yielding [seg 0 1 (ascii ''a''), seg 1 (1/2) (ascii ''b'')] (Some 2))
      (ascii ''a.wav'') (ascii ''base'') (ascii ''en''))
     = [1/2, 1/4]"
    by (simp add: worker_events_def worker_transcribe_exhausted [where m = "()"]
        engine_yielding_def seg_def duration_or_1_def progress_payloads_append)
  have "\<not> sorted [1/2, 1/4 :: real]"
    by (simp only: sorted2 sorted1 simp_thms)
  with eq show ?thesis by simp
qed

text \<open>
  C3, amended. Every Progress payload is at most 1. When the divisor the worker uses is
  positive (the engine reports no duration, or one that is not negative) and no segment
  ends before it starts, the Progress payloads of the run are non-decreasing.
\<close>

theorem progress_at_most_one_and_monotone:
  "(\<forall>p\<in>set (progress_payloads (worker_events eng a ms lc)). p \<le> 1) \<and>
   (WhisperModel eng ms = Inr m \<longrightarrow> transcribe eng m a lc = Inr (Generator segs r, d) \<longrightarrow>
    0 < duration_or_1 d \<longrightarrow> (\<forall>sg\<in>set segs. seg_start sg \<le> seg_end sg) \<longrightarrow>
    sorted (progress_payloads (worker_events eng a ms lc)))"
proof
  show "\<forall>p\<in>set (progress_payloads (worker_events eng a ms lc)). p \<le> 1"
    by (cases eng a ms lc rule: worker_transcribe_cases)
      (simp_all add: worker_events_def progress_payloads_append progress_payloads_loop_le)
next
  show "WhisperModel eng ms = Inr m \<longrightarrow> transcribe eng m a lc = Inr (Generator segs r, d) \<longrightarrow>
    0 < duration_or_1 d \<longrightarrow> (\<forall>sg\<in>set segs. seg_start sg \<le> seg_end sg) \<longrightarrow>
    sorted (progress_payloads (worker_events eng a ms lc))"
  proof (intro impI)
    assume w: "WhisperModel eng ms = Inr m"
      and t: "transcribe eng m a lc = Inr (Generator segs r, d)"
      and d: "0 < duration_or_1 d"
      and s: "\<forall>sg\<in>set segs. seg_start sg \<le> seg_end sg"
    have "progress_payloads (worker_events eng a ms lc) =
        progress_payloads (loop_events (duration_or_1 d) 0 segs)"
    proof (cases r)
      case None
      with w t show ?thesis
        by (simp add: worker_events_exhausted progress_payloads_append)
    next
      case (Some e)
      with w t show ?thesis by (simp add: worker_events_raised)
    qed
    with d s show "sorted (progress_payloads (worker_events eng a ms lc))"
      by (simp add: progress_payloads_loop_sorted)
  qed
qed

text \<open>
  The scenario of two segments over 2.5 seconds gives 0.48 and then 1.
\<close>

theorem progress_at_most_one_and_monotone_witness:
  "WhisperModel (engine_yielding [seg 0 (12/10) (ascii ''Hello ''), seg (12/10) (25/10) (ascii ''world.'')]
      (Some (25/10))) (ascii ''base'') = Inr () \<and>
   transcribe (engine_yielding [seg 0 (12/10) (ascii ''Hello ''), seg (12/10) (25/10) (ascii ''world.'')]
      (Some (25/10))) () (ascii ''sample.wav'') (ascii ''en'')
     = Inr (Generator [seg 0 (12/10) (ascii ''Hello ''), seg (12/10) (25/10) (ascii ''world.'')] None,
            Some (25/10)) \<and>
   0 < duration_or_1 (Some (25/10)) \<and>
   list_all (\<lambda>sg. seg_start sg \<le> seg_end sg)
     [seg 0 (12/10) (ascii ''Hello ''), seg (12/10) (25/10) (ascii ''world.'')] \<and>
   list_all (\<lambda>p. p \<le> 1) (progress_payloads (worker_events
      (engine_yielding [seg 0 (12/10) (ascii ''Hello ''), seg (12/10) (25/10) (ascii ''world.'')]
         (Some (25/10)))
      (ascii ''sample.wav'') (ascii ''base'') (ascii ''en''))) \<and>
   sorted (progress_payloads (worker_events
      (engine_yielding [seg 0 (12/10) (ascii ''Hello ''), seg (12/10) (25/10) (ascii ''world.'')]
         (Some (25/10)))
      (ascii ''sample.wav'') (ascii ''base'') (ascii ''en'')))"
proof -
  let ?segs = "[seg 0 (12/10) (ascii ''Hello ''), seg (12/10) (25/10) (ascii ''world.'')]"
  let ?E = "engine_yielding ?segs (Some (25/10))"
  have h1: "WhisperModel ?E (ascii ''base'') = Inr ()"
    by (simp add: engine_yielding_def)
  have h2: "transcribe ?E () (ascii ''sample.wav'') (ascii ''en'') =
      Inr (Generator ?segs None, Some (25/10))"
    by (simp add: engine_yielding_def)
  have h3: "0 < duration_or_1 (Some (25/10))"
    by (simp add: duration_or_1_def)
  have h4: "\<forall>sg\<in>set ?segs. seg_start sg \<le> seg_end sg"
    by (simp add: seg_def)
  from progress_at_most_one_and_monotone
    [of ?E "ascii ''sample.wav''" "ascii ''base''" "ascii ''en''" "()" ?segs None "Some (25/10)"]
    h1 h2 h3 h4
  show ?thesis
    by (simp add: list_all_iff)
qed

subsection \<open>C4: the buttons after Done\<close>




subsection \<open>C5: what a new run clears\<close>

text \<open>
  C5, as stated, fails for the buffer: after a first run the buffer holds its text, and
  a second start (the file chosen again, the thread started a second time) leaves that
  text in the buffer.
\<close>

theorem buffer_keeps_first_run_after_second_start:
  "full_text first_run_done = Some (ascii ''a'' @ [10]) \<and>
   started (snd (click_start (one_file (ascii ''a.wav'')) (browse_file (ascii ''a.wav'') first_run_done))) =
     [(ascii ''a.wav'', ascii ''large-v3'', ascii ''fr''),
      (ascii ''a.wav'', ascii ''large-v3'', ascii ''fr'')] \<and>
   full_text (snd (click_start (one_file (ascii ''a.wav'')) (browse_file (ascii ''a.wav'') first_run_done))) =
     Some (ascii ''a'' @ [10])"
  by (simp add: second_start_eq) (simp add: first_run_done_eq)

text \<open>
  C5, amended. A start on an existing file, with labels of the two tables, empties the
  displayed text and the queue and disables Save, and leaves the buffer as it was. Once
  the events of the run are taken off the queue, the displayed text is the concatenation
  of the TextChunk payloads of this run alone, and when the run ends with \<open>Done\<close> the
  buffer is the payload of that \<open>Done\<close>.
\<close>

theorem start_clears_view_and_done_overwrites_buffer:
  assumes "isfile fs (entry_file s)"
    and "map_of MODELS (combo_model s) = Some ms"
    and "map_of LANGS (combo_lang s) = Some lc"
  shows "txt (snd (start_transcription fs s)) = [] \<and>
         q (snd (start_transcription fs s)) = [] \<and>
         btn_save (snd (start_transcription fs s)) = Disabled \<and>
         full_text (snd (start_transcription fs s)) = full_text s \<and>
         txt (poll_queue (run_thread eng (snd (start_transcription fs s)))) =
           concat (text_payloads (worker_events eng (entry_file s) ms lc)) \<and>
         (\<forall>t. worker_events eng (entry_file s) ms lc \<noteq> [] \<and>
              last (worker_events eng (entry_file s) ms lc) = Done t \<longrightarrow>
            full_text (poll_queue (run_thread eng (snd (start_transcription fs s)))) = Some t)"
proof -
  let ?s1 = "snd (start_transcription fs s)"
  let ?evs = "worker_events eng (entry_file s) ms lc"
  have s1: "txt ?s1 = []" "q ?s1 = []" "btn_save ?s1 = Disabled" "full_text ?s1 = full_text s"
    by (simp_all add: start_transcription_ok [OF assms])
  have p: "poll_queue (run_thread eng ?s1) = (fold apply_event ?evs ?s1)\<lparr>q := []\<rparr>"
    by (rule poll_after_start [OF assms])
  have t: "txt (poll_queue (run_thread eng ?s1)) = concat (text_payloads ?evs)"
    unfolding p by (simp add: txt_fold s1)
  have f: "full_text (poll_queue (run_thread eng ?s1)) = Some t"
    if "?evs \<noteq> []" and "last ?evs = Done t" for t
  proof -
    from that(2,1) have "last_done ?evs = Some t"
      by (rule last_done_of_last)
    then show ?thesis unfolding p by (simp add: full_text_fold)
  qed
  from s1 t f show ?thesis by blast
qed

text \<open>
  A second run, on the window the first run left, with a different text.
\<close>

theorem start_clears_view_and_done_overwrites_buffer_witness:
  "isfile (one_file (ascii ''a.wav'')) (entry_file (browse_file (ascii ''a.wav'') first_run_done)) \<and>
   map_of MODELS (combo_model (browse_file (ascii ''a.wav'') first_run_done)) = Some (ascii ''large-v3'') \<and>
   map_of LANGS (combo_lang (browse_file (ascii ''a.wav'') first_run_done)) = Some (ascii ''fr'') \<and>
   worker_events (engine_yielding [seg 0 1 (ascii ''b'')] (Some 1))
     (ascii ''a.wav'') (ascii ''large-v3'') (ascii ''fr'') =
     [Progress 1, TextChunk (ascii ''b''), Done (ascii ''b'' @ [10])] \<and>
   full_text (snd (start_transcription (one_file (ascii ''a.wav''))
     (browse_file (ascii ''a.wav'') first_run_done))) = Some (ascii ''a'' @ [10]) \<and>
   txt (snd (start_transcription (one_file (ascii ''a.wav''))
     (browse_file (ascii ''a.wav'') first_run_done))) = [] \<and>
   txt (poll_queue (run_thread (engine_yielding [seg 0 1 (ascii ''b'')] (Some 1))
     (snd (start_transcription (one_file (ascii ''a.wav''))
        (browse_file (ascii ''a.wav'') first_run_done))))) = ascii ''b'' \<and>
   full_text (poll_queue (run_thread (engine_yielding [seg 0 1 (ascii ''b'')] (Some 1))
     (snd (start_transcription (one_file (ascii ''a.wav''))
        (browse_file (ascii ''a.wav'') first_run_done))))) = Some (ascii ''b'' @ [10])"
proof -
  let ?s = "browse_file (ascii ''a.wav'') first_run_done"
  let ?fs = "one_file (ascii ''a.wav'')"
  let ?E = "engine_yielding [seg 0 1 (ascii ''b'')] (Some 1)"
  have ne: "ascii ''a.wav'' \<noteq> []" by (simp add: ascii_def)
  have s: "?s = first_run_done\<lparr>btn_start := Normal\<rparr>"
    using ne by (simp add: browse_file_def first_run_done_eq)
  have e: "entry_file ?s = ascii ''a.wav''"
    unfolding s by (simp add: first_run_done_eq)
  have h1: "isfile ?fs (entry_file ?s)"
    unfolding e one_file_def by (rule example_machine)
  have h2: "map_of MODELS (combo_model ?s) = Some (ascii ''large-v3'')"
    unfolding s by (simp add: first_run_done_eq example_lookups)
  have h3: "map_of LANGS (combo_lang ?s) = Some (ascii ''fr'')"
    unfolding s by (simp add: first_run_done_eq example_lookups)
  have w: "worker_events ?E (ascii ''a.wav'') (ascii ''large-v3'') (ascii ''fr'') =
      [Progress 1, TextChunk (ascii ''b''), Done (ascii ''b'' @ [10])]"
    by (rule example_events)
  have f: "full_text ?s = Some (ascii ''a'' @ [10])"
    unfolding s by (simp add: first_run_done_eq)
  from start_clears_view_and_done_overwrites_buffer [OF h1 h2 h3, of ?E]
  have "txt (snd (start_transcription ?fs ?s)) = []"
    and "full_text (snd (start_transcription ?fs ?s)) = Some (ascii ''a'' @ [10])"
    and "txt (poll_queue (run_thread ?E (snd (start_transcription ?fs ?s)))) = ascii ''b''"
    and "full_text (poll_queue (run_thread ?E (snd (start_transcription ?fs ?s)))) =
           Some (ascii ''b'' @ [10])"
    unfolding e w f by simp_all
  with h1 h2 h3 w show ?thesis by blast
qed

subsection \<open>C6: the engine fails to load\<close>

text \<open>
  C6, as stated, fails on the payload: the message of the code has a no-break space
  (\<open>0xA0\<close>) between the last word and the colon, so the payload is not the prefix of the
  claim, written with a plain space, followed by the message of the engine.
\<close>

theorem load_error_prefix_has_no_break_space:
  "worker_events (engine_load_fails (ascii ''model not found''))
     (ascii ''a.wav'') (ascii ''base'') (ascii ''en'') =
     [Error (ascii ''Erreur chargement mod'' @ [0xE8] @ ascii ''le'' @ [0xA0]
               @ ascii '': model not found'')] \<and>
   worker_events (engine_load_fails (ascii ''model not found''))
     (ascii ''a.wav'') (ascii ''base'') (ascii ''en'') \<noteq>
     [Error (ascii ''Erreur chargement mod'' @ [0xE8] @ ascii ''le : model not found'')]"
  by (simp add: worker_events_load_fails engine_load_fails_def) (simp add: ascii_def)

text \<open>
  C6, amended. When the constructor of the engine raises with message \<open>e\<close>, the worker
  posts the single event \<open>Error\<close> whose payload is the prefix of the code, with its no-break
  space before the colon, followed by \<open>e\<close>, and returns. After a start that spawned this
  worker, the queue holds that event alone; once it is taken off, the Start button is
  normal again and the Save button is still disabled.
\<close>

theorem load_failure_single_error_and_retry:
  assumes "isfile fs (entry_file s)"
    and "map_of MODELS (combo_model s) = Some ms"
    and "map_of LANGS (combo_lang s) = Some lc"
    and "WhisperModel eng ms = Inl e"
  shows "worker_transcribe eng a ms lc qu =
           (None,
            qu @ [Error (ascii ''Erreur chargement mod'' @ [0xE8] @ ascii ''le'' @ [0xA0]
                           @ ascii '': '' @ e)]) \<and>
         q (run_thread eng (snd (start_transcription fs s))) =
           [Error (ascii ''Erreur chargement mod'' @ [0xE8] @ ascii ''le'' @ [0xA0]
                     @ ascii '': '' @ e)] \<and>
         btn_start (poll_queue (run_thread eng (snd (start_transcription fs s)))) = Normal \<and>
         btn_save (poll_queue (run_thread eng (snd (start_transcription fs s)))) = Disabled"
proof -
  let ?err = "Error (ascii ''Erreur chargement mod'' @ [0xE8] @ ascii ''le'' @ [0xA0]
                       @ ascii '': '' @ e)"
  have ev: "worker_events eng (entry_file s) ms lc = [?err]"
    using assms(4) by (rule worker_events_load_fails)
  have w: "worker_transcribe eng a ms lc qu = (None, qu @ [?err])"
    using assms(4) by (rule worker_transcribe_load_fails)
  have r: "q (run_thread eng (snd (start_transcription fs s))) = [?err]"
    unfolding run_thread_after_start [OF assms(1-3)] by (simp only: ev) simp
  have p: "poll_queue (run_thread eng (snd (start_transcription fs s))) =
      (fold apply_event [?err] (snd (start_transcription fs s)))\<lparr>q := []\<rparr>"
    using poll_after_start [OF assms(1-3), of eng] by (simp only: ev)
  have b: "btn_start (poll_queue (run_thread eng (snd (start_transcription fs s)))) = Normal"
    "btn_save (poll_queue (run_thread eng (snd (start_transcription fs s)))) = Disabled"
    unfolding p
    by (simp_all add: apply_event_simps start_transcription_ok [OF assms(1-3)])
  from w r b show ?thesis by (intro conjI)
qed

text \<open>
  The scenario of the message \<open>model not found\<close>.
\<close>

theorem load_failure_single_error_and_retry_witness:
  "isfile (one_file (ascii ''a.wav'')) (entry_file (browse_file (ascii ''a.wav'') App_init)) \<and>
   map_of MODELS (combo_model (browse_file (ascii ''a.wav'') App_init)) = Some (ascii ''large-v3'') \<and>
   map_of LANGS (combo_lang (browse_file (ascii ''a.wav'') App_init)) = Some (ascii ''fr'') \<and>
   WhisperModel (engine_load_fails (ascii ''model not found'')) (ascii ''large-v3'') =
     Inl (ascii ''model not found'') \<and>
   worker_transcribe (engine_load_fails (ascii ''model not found''))
     (ascii ''a.wav'') (ascii ''large-v3'') (ascii ''fr'') [] =
     (None, [Error (ascii ''Erreur chargement mod'' @ [0xE8] @ ascii ''le'' @ [0xA0]
                      @ ascii '': '' @ ascii ''model not found'')]) \<and>
   btn_start (poll_queue (run_thread (engine_load_fails (ascii ''model not found''))
     (snd (start_transcription (one_file (ascii ''a.wav'')) (browse_file (ascii ''a.wav'') App_init)))))
     = Normal \<and>
   btn_save (poll_queue (run_thread (engine_load_fails (ascii ''model not found''))
     (snd (start_transcription (one_file (ascii ''a.wav'')) (browse_file (ascii ''a.wav'') App_init)))))
     = Disabled"
proof -
  let ?s = "browse_file (ascii ''a.wav'') App_init"
  let ?fs = "one_file (ascii ''a.wav'')"
  have ne: "ascii ''a.wav'' \<noteq> []" by (simp add: ascii_def)
  have s: "?s = App_init\<lparr>entry_file := ascii ''a.wav'', btn_start := Normal\<rparr>"
    using ne by (simp add: browse_file_def)
  have h1: "isfile ?fs (entry_file ?s)"
    unfolding s one_file_def by (simp add: example_machine)
  have h2: "map_of MODELS (combo_model ?s) = Some (ascii ''large-v3'')"
    unfolding s by (simp add: App_init_def example_lookups)
  have h3: "map_of LANGS (combo_lang ?s) = Some (ascii ''fr'')"
    unfolding s by (simp add: App_init_def example_lookups)
  have h4: "WhisperModel (engine_load_fails (ascii ''model not found'')) (ascii ''large-v3'') =
      Inl (ascii ''model not found'')"
    by (simp add: engine_load_fails_def)
  from load_failure_single_error_and_retry [OF h1 h2 h3 h4, of "ascii ''a.wav''" "[]"]
  have "worker_transcribe (engine_load_fails (ascii ''model not found''))
     (ascii ''a.wav'') (ascii ''large-v3'') (ascii ''fr'') [] =
     (None, [Error (ascii ''Erreur chargement mod'' @ [0xE8] @ ascii ''le'' @ [0xA0]
                      @ ascii '': '' @ ascii ''model not found'')])"
    and "btn_start (poll_queue (run_thread (engine_load_fails (ascii ''model not found''))
      (snd (start_transcription ?fs ?s)))) = Normal"
    and "btn_save (poll_queue (run_thread (engine_load_fails (ascii ''model not found''))
      (snd (start_transcription ?fs ?s)))) = Disabled"
    by simp_all
  with h1 h2 h3 h4 show ?thesis by blast
qed

subsection \<open>C7: start on a path that is not a file\<close>

text \<open>
  C7. When the path of the entry is not an existing file, \<open>start_transcription\<close> shows the
  error dialog and returns: no thread is created or started, and the queue is as it was.
\<close>

theorem start_with_missing_file_aborts:
  assumes "\<not> isfile fs (entry_file s)"
  shows "start_transcription fs s =
           (None,
            s\<lparr>dialogs := dialogs s @
               [ShowError (ascii ''Erreur'') (ascii ''Fichier invalide.'')]\<rparr>) \<and>
         started (snd (start_transcription fs s)) = started s \<and>
         thread (snd (start_transcription fs s)) = thread s \<and>
         q (snd (start_transcription fs s)) = q s"
  using assms by (simp add: start_transcription_def)

text \<open>
  A path that is not on the machine.
\<close>

theorem start_with_missing_file_aborts_witness:
  "\<not> isfile (one_file (ascii ''a.wav'')) (entry_file (browse_file (ascii ''missing.wav'') App_init)) \<and>
   start_transcription (one_file (ascii ''a.wav'')) (browse_file (ascii ''missing.wav'') App_init) =
     (None, (browse_file (ascii ''missing.wav'') App_init)
        \<lparr>dialogs := [ShowError (ascii ''Erreur'') (ascii ''Fichier invalide.'')]\<rparr>) \<and>
   started (snd (start_transcription (one_file (ascii ''a.wav''))
     (browse_file (ascii ''missing.wav'') App_init))) = [] \<and>
   thread (snd (start_transcription (one_file (ascii ''a.wav''))
     (browse_file (ascii ''missing.wav'') App_init))) = None \<and>
   q (snd (start_transcription (one_file (ascii ''a.wav''))
     (browse_file (ascii ''missing.wav'') App_init))) = []"
proof -
  let ?s = "browse_file (ascii ''missing.wav'') App_init"
  have ne: "ascii ''missing.wav'' \<noteq> []" by (simp add: ascii_def)
  have s: "?s = App_init\<lparr>entry_file := ascii ''missing.wav'', btn_start := Normal\<rparr>"
    using ne by (simp add: browse_file_def)
  have neq: "ascii ''missing.wav'' \<noteq> ascii ''a.wav''" by (simp add: ascii_def)
  have h: "\<not> isfile (one_file (ascii ''a.wav'')) (entry_file ?s)"
    unfolding s using neq by (simp add: isfile_def one_file_def machine_def)
  have d: "dialogs ?s = []" "started ?s = []" "thread ?s = None" "q ?s = []"
    unfolding s by (simp_all add: App_init_def)
  from start_with_missing_file_aborts [OF h]
  have "start_transcription (one_file (ascii ''a.wav'')) ?s =
      (None, ?s\<lparr>dialogs := [ShowError (ascii ''Erreur'') (ascii ''Fichier invalide.'')]\<rparr>)"
    and "started (snd (start_transcription (one_file (ascii ''a.wav'')) ?s)) = []"
    and "thread (snd (start_transcription (one_file (ascii ''a.wav'')) ?s)) = None"
    and "q (snd (start_transcription (one_file (ascii ''a.wav'')) ?s)) = []"
    by (simp_all add: d)
  with h show ?thesis by blast
qed

subsection \<open>C8: what Save writes\<close>

text \<open>
  C8, as stated, fails. The file is opened in text mode: where the line separator of the
  platform is \<^verbatim>\<open>\r\n\<close>, Save after a run of one segment \<open>a\<close> writes the three bytes of
  \<^verbatim>\<open>a\r\n\<close>, not the two bytes that encode the payload. And a payload with a carriage
  return does not come back: the payload \<^verbatim>\<open>a\r\n\<close>, written where the separator is a line
  break, is read back as \<^verbatim>\<open>a\n\<close>.
\<close>

theorem save_translates_line_breaks:
  "full_text first_run_done = Some (ascii ''a'' @ [10]) \<and>
   btn_save first_run_done = Normal \<and>
   utf8_encode (ascii ''a'' @ [10]) = Inr [0x61, 0x0A] \<and>
   files (fst (click_save (ascii ''out.txt'') (machine [13, 10] (ascii ''a.wav'')) first_run_done))
     (ascii ''out.txt'') = Some [0x61, 0x0D, 0x0A] \<and>
   full_text (poll_queue (first_run_done\<lparr>q := [Done (ascii ''a'' @ [13, 10])]\<rparr>)) =
     Some (ascii ''a'' @ [13, 10]) \<and>
   read_text (ascii ''out.txt'')
     (fst (click_save (ascii ''out.txt'') (one_file (ascii ''a.wav''))
        (poll_queue (first_run_done\<lparr>q := [Done (ascii ''a'' @ [13, 10])]\<rparr>)))) =
     Inr (ascii ''a'' @ [10])"
proof -
  let ?s = "first_run_done\<lparr>q := [Done (ascii ''a'' @ [13, 10])]\<rparr>"
  have ne: "ascii ''out.txt'' \<noteq> []" by (simp add: ascii_def)
  have pf: "full_text (poll_queue ?s) = Some (ascii ''a'' @ [13, 10])"
    and pb: "btn_save (poll_queue ?s) = Normal"
    by (simp_all add: poll_queue_fold apply_event_simps)
  have pd: "utf8_encode (translate_newlines (linesep (one_file (ascii ''a.wav'')))
      (ascii ''a'' @ [13, 10])) = Inr [0x61, 0x0D, 0x0A]"
    by (simp add: one_file_def example_machine translate_newlines_def utf8_encode_def
        encode_char_def ascii_def)
  have "files (fst (save_txt (ascii ''out.txt'') (one_file (ascii ''a.wav'')) (poll_queue ?s)))
      (ascii ''out.txt'') = Some [0x61, 0x0D, 0x0A]"
    using ne example_machine(2) example_machine(3) pf pd
    unfolding one_file_def by (rule save_txt_ok)
  then have "read_text (ascii ''out.txt'')
      (fst (save_txt (ascii ''out.txt'') (one_file (ascii ''a.wav'')) (poll_queue ?s))) =
      Inr (ascii ''a'' @ [10])"
    by (simp add: read_text_def utf8_decode_def cont_def ascii_def)
  with pb have rd: "read_text (ascii ''out.txt'')
      (fst (click_save (ascii ''out.txt'') (one_file (ascii ''a.wav'')) (poll_queue ?s))) =
      Inr (ascii ''a'' @ [10])"
    by (simp add: click_save_def)
  have f: "full_text first_run_done = Some (ascii ''a'' @ [10])"
    and b: "btn_save first_run_done = Normal"
    by (simp_all add: first_run_done_eq)
  have e: "utf8_encode (ascii ''a'' @ [10]) = Inr [0x61, 0x0A]"
    by (simp add: utf8_encode_def encode_char_def ascii_def)
  have d: "utf8_encode (translate_newlines (linesep (machine [13, 10] (ascii ''a.wav'')))
      (ascii ''a'' @ [10])) = Inr [0x61, 0x0D, 0x0A]"
    by (simp add: example_machine translate_newlines_def utf8_encode_def encode_char_def ascii_def)
  have "files (fst (save_txt (ascii ''out.txt'') (machine [13, 10] (ascii ''a.wav'')) first_run_done))
      (ascii ''out.txt'') = Some [0x61, 0x0D, 0x0A]"
    using ne example_machine(2) example_machine(3) f d by (rule save_txt_ok)
  with b have "files (fst (click_save (ascii ''out.txt'') (machine [13, 10] (ascii ''a.wav''))
      first_run_done)) (ascii ''out.txt'') = Some [0x61, 0x0D, 0x0A]"
    by (simp add: click_save_def)
  with f b e pf rd show ?thesis by (intro conjI)
qed

text \<open>
  C8, amended. When the queue holds a \<open>Done\<close> event, then after the poll the Save button is
  enabled and the buffer is the payload of the most recent \<open>Done\<close>. A Save on a chosen
  path that can be opened and written, for a payload that has a UTF-8 encoding, leaves a
  file that holds the UTF-8 bytes of the payload with every line break replaced by the
  line separator of the platform: the bytes of the payload itself where the separator is
  a line break. Reading the file back in text mode gives the payload when the payload has
  no carriage return.
\<close>

theorem save_writes_last_done_payload:
  assumes "path \<noteq> []"
    and "open_error fs path = None"
    and "write_error fs path = None"
    and "last_done (q s) = Some t"
    and "utf8_encode (translate_newlines (linesep fs) t) = Inr data"
  shows "btn_save (poll_queue s) = Normal \<and>
         full_text (poll_queue s) = Some t \<and>
         files (fst (click_save path fs (poll_queue s))) path = Some data \<and>
         (linesep fs = [10] \<longrightarrow> utf8_encode t = Inr data) \<and>
         (13 \<notin> set t \<and> (linesep fs = [10] \<or> linesep fs = [13, 10]) \<longrightarrow>
            read_text path (fst (click_save path fs (poll_queue s))) = Inr t)"
proof -
  have b: "btn_save (poll_queue s) = Normal"
    by (simp add: poll_queue_fold btn_save_fold assms(4))
  have f: "full_text (poll_queue s) = Some t"
    by (simp add: poll_queue_fold full_text_fold assms(4))
  have "files (fst (save_txt path fs (poll_queue s))) path = Some data"
    using assms(1-3) f assms(5) by (rule save_txt_ok)
  with b have w: "files (fst (click_save path fs (poll_queue s))) path = Some data"
    by (simp add: click_save_def)
  have lf: "utf8_encode t = Inr data" if "linesep fs = [10]"
    using assms(5) that by (simp add: translate_newlines_lf)
  have rd: "read_text path (fst (click_save path fs (poll_queue s))) = Inr t"
    if "13 \<notin> set t \<and> (linesep fs = [10] \<or> linesep fs = [13, 10])"
  proof -
    from that have "universal_newlines (translate_newlines (linesep fs) t) = t"
      by (intro universal_translate) simp_all
    with read_text_written [OF w assms(5)] show ?thesis by simp
  qed
  from b f w lf rd show ?thesis by blast
qed

text \<open>
  A window whose buffer holds an older text, a queue with a newer \<open>Done\<close>, and a platform
  whose line separator is \<^verbatim>\<open>\r\n\<close>.
\<close>

theorem save_writes_last_done_payload_witness:
  "ascii ''out.txt'' \<noteq> [] \<and>
   open_error (machine [13, 10] (ascii ''a.wav'')) (ascii ''out.txt'') = None \<and>
   write_error (machine [13, 10] (ascii ''a.wav'')) (ascii ''out.txt'') = None \<and>
   last_done (q (first_run_done
      \<lparr>q := [Progress 1, TextChunk (ascii ''b''), Done (ascii ''b'' @ [10])]\<rparr>)) =
     Some (ascii ''b'' @ [10]) \<and>
   utf8_encode (translate_newlines (linesep (machine [13, 10] (ascii ''a.wav''))) (ascii ''b'' @ [10])) =
     Inr [0x62, 0x0D, 0x0A] \<and>
   13 \<notin> set (ascii ''b'' @ [10]) \<and>
   linesep (machine [13, 10] (ascii ''a.wav'')) = [13, 10] \<and>
   files (fst (click_save (ascii ''out.txt'') (machine [13, 10] (ascii ''a.wav''))
     (poll_queue (first_run_done
        \<lparr>q := [Progress 1, TextChunk (ascii ''b''), Done (ascii ''b'' @ [10])]\<rparr>))))
     (ascii ''out.txt'') = Some [0x62, 0x0D, 0x0A] \<and>
   read_text (ascii ''out.txt'') (fst (click_save (ascii ''out.txt'') (machine [13, 10] (ascii ''a.wav''))
     (poll_queue (first_run_done
        \<lparr>q := [Progress 1, TextChunk (ascii ''b''), Done (ascii ''b'' @ [10])]\<rparr>)))) =
     Inr (ascii ''b'' @ [10])"
proof -
  let ?fs = "machine [13, 10] (ascii ''a.wav'')"
  let ?s = "first_run_done\<lparr>q := [Progress 1, TextChunk (ascii ''b''), Done (ascii ''b'' @ [10])]\<rparr>"
  have h1: "ascii ''out.txt'' \<noteq> []" by (simp add: ascii_def)
  have h2: "open_error ?fs (ascii ''out.txt'') = None" by (rule example_machine)
  have h3: "write_error ?fs (ascii ''out.txt'') = None" by (rule example_machine)
  have h4: "last_done (q ?s) = Some (ascii ''b'' @ [10])" by simp
  have h5: "utf8_encode (translate_newlines (linesep ?fs) (ascii ''b'' @ [10])) =
      Inr [0x62, 0x0D, 0x0A]"
    by (simp add: example_machine translate_newlines_def utf8_encode_def encode_char_def ascii_def)
  have h6: "13 \<notin> set (ascii ''b'' @ [10])" by (simp add: ascii_def)
  have h7: "linesep ?fs = [13, 10]" by (rule example_machine)
  from save_writes_last_done_payload [OF h1 h2 h3 h4 h5] h6 h7
  have "files (fst (click_save (ascii ''out.txt'') ?fs (poll_queue ?s))) (ascii ''out.txt'') =
      Some [0x62, 0x0D, 0x0A]"
    and "read_text (ascii ''out.txt'') (fst (click_save (ascii ''out.txt'') ?fs (poll_queue ?s))) =
      Inr (ascii ''b'' @ [10])"
    by simp_all
  with h1 h2 h3 h4 h5 h6 h7 show ?thesis by blast
qed

subsection \<open>C9: the divisor of the progress fraction\<close>


subsection \<open>C10: no segment\<close>

text \<open>
  C10. When the engine loads, and transcribes to an empty sequence of segments, the worker
  posts exactly one event, \<open>Done\<close> with the empty string.
\<close>

theorem empty_segments_only_done:
  assumes "WhisperModel eng ms = Inr m"
    and "transcribe eng m a lc = Inr (Generator [] None, d)"
  shows "worker_transcribe eng a ms lc qu = (None, qu @ [Done []]) \<and>
         worker_events eng a ms lc = [Done []]"
  using assms by (simp add: worker_transcribe_exhausted worker_events_exhausted loop_text_def)

text \<open>
  An engine that yields no segment.
\<close>

theorem empty_segments_only_done_witness:
  "WhisperModel (engine_yielding [] (Some 3)) (ascii ''base'') = Inr () \<and>
   transcribe (engine_yielding [] (Some 3)) () (ascii ''a.wav'') (ascii ''en'') =
     Inr (Generator [] None, Some 3) \<and>
   worker_transcribe (engine_yielding [] (Some 3)) (ascii ''a.wav'') (ascii ''base'') (ascii ''en'') [] =
     (None, [Done []]) \<and>
   worker_events (engine_yielding [] (Some 3)) (ascii ''a.wav'') (ascii ''base'') (ascii ''en'') =
     [Done []]"
proof -
  have h1: "WhisperModel (engine_yielding [] (Some 3)) (ascii ''base'') = Inr ()"
    by (simp add: engine_yielding_def)
  have h2: "transcribe (engine_yielding [] (Some 3)) () (ascii ''a.wav'') (ascii ''en'') =
      Inr (Generator [] None, Some 3)"
    by (simp add: engine_yielding_def)
  from h1 h2 empty_segments_only_done [OF h1 h2, of "[]"] show ?thesis by simp
qed

end
